theory Spec2Isabelle
  imports Complex_Main "HOL-Library.Sublist" "HOL-Library.Log_Nat"
begin

section \<open>Strings\<close>

text \<open>
  File names are HOL strings. \<open>toLowerCase\<close> maps the letters \<open>A\<close>..\<open>Z\<close> to
  \<open>a\<close>..\<open>z\<close> and leaves every other character alone, which is what
  \<^verbatim>\<open>String.prototype.toLowerCase\<close> does on an ASCII name. The general theorems
  below never look inside \<open>toLowerCase\<close>: they speak about the lowercased name,
  whatever it is.
\<close>

definition toLowerChar :: "char \<Rightarrow> char" where
  "toLowerChar c =
     (case map_of (zip ''ABCDEFGHIJKLMNOPQRSTUVWXYZ'' ''abcdefghijklmnopqrstuvwxyz'') c of
        None \<Rightarrow> c
      | Some l \<Rightarrow> l)"

definition toLowerCase :: "string \<Rightarrow> string" where
  "toLowerCase s = map toLowerChar s"

text \<open>
  \<^verbatim>\<open>s.endsWith(searchString)\<close>: with the default end position the search starts
  at \<open>length s - length searchString\<close>; a negative start is the answer \<open>false\<close>.
\<close>

definition endsWith :: "string \<Rightarrow> string \<Rightarrow> bool" where
  "endsWith s searchString =
     (length searchString \<le> length s \<and>
      drop (length s - length searchString) s = searchString)"

text \<open>
  \<^verbatim>\<open>s.includes(searchString)\<close>: some position of \<open>s\<close> starts a copy of
  \<open>searchString\<close>. (\<open>includes\<close> is a keyword of Isabelle, hence the suffix.)
\<close>

fun includes_str :: "string \<Rightarrow> string \<Rightarrow> bool" where
  "includes_str [] searchString = (searchString = [])"
| "includes_str (c # cs) searchString =
     (take (length searchString) (c # cs) = searchString \<or> includes_str cs searchString)"

section \<open>Data model\<close>

text \<open>
  The interfaces of the component. Three of them have a field \<open>name\<close> and one a field
  \<open>size\<close> (a constant of HOL), so the fields of a release and of a platform carry a
  prefix and the size of an asset a suffix.
\<close>

record ReleaseAsset =
  name :: string
  browser_download_url :: string
  size_bytes :: nat

record Release =
  tag_name :: string
  release_name :: string
  html_url :: string
  published_at :: string
  assets :: "ReleaseAsset list"
  body :: string

text \<open>The \<open>icon\<close> of a platform is markup for the renderer only and is left out.\<close>

record Platform =
  platform_name :: string
  match :: "string \<Rightarrow> bool"

section \<open>The installer filter\<close>

definition isInstallerAsset :: "string \<Rightarrow> bool" where
  "isInstallerAsset nm =
     (let lower = toLowerCase nm in
      \<not> (endsWith lower ''.sha256'' \<or> endsWith lower ''.sig'' \<or>
         endsWith lower ''.blockmap'' \<or> endsWith lower ''.yaml'' \<or>
         endsWith lower ''.yml''))"

definition installerAssets :: "Release \<Rightarrow> ReleaseAsset list" where
  "installerAssets release = filter (\<lambda>a. isInstallerAsset (name a)) (assets release)"

section \<open>Platform rules and the classifier of the component\<close>

definition platforms :: "Platform list" where
  "platforms =
     [\<lparr>platform_name = ''macOS'',
       match = (\<lambda>nm. let lower = toLowerCase nm in
                  includes_str lower ''mac'' \<or> includes_str lower ''darwin'' \<or>
                  includes_str lower ''macos'' \<or> endsWith lower ''.dmg'')\<rparr>,
      \<lparr>platform_name = ''Windows'',
       match = (\<lambda>nm. let lower = toLowerCase nm in
                  includes_str lower ''win'' \<or> endsWith lower ''.exe'' \<or>
                  endsWith lower ''.msi'')\<rparr>,
      \<lparr>platform_name = ''Linux'',
       match = (\<lambda>nm. let lower = toLowerCase nm in
                  includes_str lower ''linux'' \<or> endsWith lower ''.appimage'' \<or>
                  endsWith lower ''.deb'' \<or> endsWith lower ''.rpm'')\<rparr>]"

text \<open>
  The body of the component after a release has arrived: \<^verbatim>\<open>find\<close> gives the first
  element that satisfies the predicate or \<^verbatim>\<open>undefined\<close> (\<open>None\<close>), \<^verbatim>\<open>some\<close> is
  \<open>list_ex\<close>.
\<close>

record PlatformAsset =
  platform :: Platform
  asset :: "ReleaseAsset option"

definition platformAssets :: "Release \<Rightarrow> PlatformAsset list" where
  "platformAssets release =
     map (\<lambda>p. \<lparr>platform = p,
               asset = find (\<lambda>a. match p (name a)) (installerAssets release)\<rparr>)
         platforms"

definition unmatchedAssets :: "Release \<Rightarrow> ReleaseAsset list" where
  "unmatchedAssets release =
     filter (\<lambda>a. \<not> list_ex (\<lambda>p. match p (name a)) platforms) (installerAssets release)"

section \<open>The label of the build script\<close>

definition detectPlatform :: "string \<Rightarrow> string option" where
  "detectPlatform nm =
     (let lower = toLowerCase nm in
      if includes_str lower ''mac'' \<or> includes_str lower ''darwin'' \<or>
         includes_str lower ''macos'' \<or> endsWith lower ''.dmg''
      then Some ''macOS''
      else if includes_str lower ''win'' \<or> endsWith lower ''.exe'' \<or>
              endsWith lower ''.msi''
      then Some ''Windows''
      else if includes_str lower ''linux'' \<or> endsWith lower ''.appimage'' \<or>
              endsWith lower ''.deb'' \<or> endsWith lower ''.rpm''
      then Some ''Linux''
      else None)"

section \<open>The byte-size formatter\<close>

text \<open>
  \<open>formatBytes\<close> has the same text in the script and in the component. Its argument is
  an asset size, a natural number. Two steps of it are arithmetic on doubles:
  \<^item> \<^verbatim>\<open>bytes / Math.pow(1024, i)\<close> divides an integer by a power of two, which is
    exact on doubles (for sizes below \<open>2^53\<close>), so the value is the rational number
    \<open>bytes / 1024^i\<close>;
  \<^item> \<^verbatim>\<open>Math.floor(Math.log(bytes) / Math.log(1024))\<close> is taken over the real numbers:
    \<open>floor_log1024\<close> computes \<open>\<lfloor>ln bytes / ln 1024\<rfloor>\<close> by repeated division (lemma
    \<open>floor_log1024_ln\<close> below). The rounding of the two logarithms and of their quotient
    is outside this model.
\<close>

definition units :: "string list" where
  "units = [''B'', ''KB'', ''MB'', ''GB'']"

fun floor_log1024 :: "nat \<Rightarrow> nat" where
  "floor_log1024 bytes =
     (if bytes < 1024 then 0 else Suc (floor_log1024 (bytes div 1024)))"

definition digit :: "nat \<Rightarrow> char" where
  "digit d = ''0123456789'' ! d"

fun decimal :: "nat \<Rightarrow> string" where
  "decimal n = (if n < 10 then [digit n] else decimal (n div 10) @ [digit (n mod 10)])"

text \<open>
  \<^verbatim>\<open>x.toFixed(f)\<close> for \<open>0 \<le> x < 10^21\<close>: \<open>n\<close> is the integer for which
  \<open>n / 10^f - x\<close> is closest to zero, the larger one of two; its digits are padded with
  zeros to \<open>f + 1\<close> places and a point goes before the last \<open>f\<close> of them.
\<close>

definition toFixed :: "rat \<Rightarrow> nat \<Rightarrow> string" where
  "toFixed x fractionDigits =
     (let n = nat \<lfloor>x * 10 ^ fractionDigits + 1 / 2\<rfloor>;
          m = decimal n
      in if fractionDigits = 0 then m
         else let m' = replicate (fractionDigits + 1 - length m) (CHR ''0'') @ m;
                  k = length m'
              in take (k - fractionDigits) m' @ ''.'' @ drop (k - fractionDigits) m')"

text \<open>
  \<^verbatim>\<open>${units[i]}\<close>: an index outside the array reads \<^verbatim>\<open>undefined\<close>, which the
  template prints as the word.
\<close>

definition unit_text :: "nat \<Rightarrow> string" where
  "unit_text i = (if i < length units then units ! i else ''undefined'')"

definition formatBytes :: "nat \<Rightarrow> string" where
  "formatBytes bytes =
     (if bytes = 0 then ''0 B''
      else let i = floor_log1024 bytes;
               val = rat_of_nat bytes / 1024 ^ i
           in toFixed val (if i = 0 then 0 else 1) @ '' '' @ unit_text i)"

section \<open>The fetch of the component\<close>

text \<open>
  A settled promise. The fetch itself rejects on a network failure; a response has a
  status and a body, and \<^verbatim>\<open>res.json()\<close> rejects (\<open>None\<close>) when the body does not
  parse and resolves with the parsed value otherwise. The type parameter is what the
  caller reads the parsed value as: the script reads it as a release, the component tests
  it first.
\<close>

datatype 'a promise = Resolved 'a | Rejected

record 'b http_response =
  status :: nat
  json :: "'b option"

definition ok :: "'b http_response \<Rightarrow> bool" where
  "ok res = (200 \<le> status res \<and> status res \<le> 299)"

text \<open>
  The parsed value as the component tells values apart:
  \<^item> \<open>Falsy\<close>: \<^verbatim>\<open>null\<close>, \<^verbatim>\<open>false\<close>, \<^verbatim>\<open>0\<close> or the empty string, the values for which
    \<^verbatim>\<open>if (data)\<close> and \<^verbatim>\<open>if (!release)\<close> take the falsy side; it also stands for the
    \<^verbatim>\<open>null\<close> of the initial state and of the 404 branch;
  \<^item> \<open>NoAssets\<close>: a truthy value whose \<^verbatim>\<open>assets\<close> is not an array, such as \<^verbatim>\<open>{}\<close> or
    \<^verbatim>\<open>5\<close>, on which \<^verbatim>\<open>release.assets.filter\<close> throws a \<^verbatim>\<open>TypeError\<close>;
  \<^item> \<open>ReleaseObject\<close>: a truthy value with an array of assets, read through the
    interface \<open>Release\<close>.
\<close>

datatype json_value = Falsy | NoAssets | ReleaseObject Release

record ui_state =
  release :: json_value
  loading :: bool
  error :: "string option"

definition initial_state :: ui_state where
  "initial_state = \<lparr>release = Falsy, loading = True, error = None\<rparr>"

definition error_message :: string where
  "error_message = ''Could not fetch release information. Please try again later.''"

text \<open>The first \<^verbatim>\<open>then\<close>: the new state and the promise it hands to the second.\<close>

definition on_response ::
    "json_value http_response \<Rightarrow> ui_state \<Rightarrow> ui_state \<times> json_value promise" where
  "on_response res s =
     (if status res = 404 then (s\<lparr>loading := False\<rparr>, Resolved Falsy)
      else if \<not> ok res then (s, Rejected)
      else (case json res of
              None \<Rightarrow> (s, Rejected)
            | Some d \<Rightarrow> (s, Resolved d)))"

text \<open>The second \<^verbatim>\<open>then\<close>: \<^verbatim>\<open>if (data) setRelease(data); setLoading(false)\<close>.\<close>

definition on_data :: "json_value \<Rightarrow> ui_state \<Rightarrow> ui_state" where
  "on_data d s =
     (let s1 = (if d \<noteq> Falsy then s\<lparr>release := d\<rparr> else s)
      in s1\<lparr>loading := False\<rparr>)"

definition on_catch :: "ui_state \<Rightarrow> ui_state" where
  "on_catch s = (s\<lparr>error := Some error_message\<rparr>)\<lparr>loading := False\<rparr>"

definition fetch_effect :: "json_value http_response promise \<Rightarrow> ui_state" where
  "fetch_effect r =
     (case r of
        Rejected \<Rightarrow> on_catch initial_state
      | Resolved res \<Rightarrow>
          (case on_response res initial_state of
             (s1, Rejected) \<Rightarrow> on_catch s1
           | (s1, Resolved d) \<Rightarrow> on_data d s1))"

text \<open>
  What the component returns for a state, by its chain of early returns: the spinner, the
  error text, the not-found view, or the release view, which throws at its first line
  when the stored value has no array of assets.
\<close>

datatype outcome = Loading | Error string | NotFound | Success Release | Throws

definition release_view :: "json_value \<Rightarrow> outcome" where
  "release_view v = (case v of Falsy \<Rightarrow> NotFound | NoAssets \<Rightarrow> Throws | ReleaseObject r \<Rightarrow> Success r)"

definition render :: "ui_state \<Rightarrow> outcome" where
  "render s =
     (if loading s then Loading
      else case error s of
             Some e \<Rightarrow> if e \<noteq> [] then Error e else release_view (release s)
           | None \<Rightarrow> release_view (release s))"

section \<open>The build script\<close>











section \<open>Releases of the scenarios\<close>

definition mk_asset :: "string \<Rightarrow> nat \<Rightarrow> ReleaseAsset" where
  "mk_asset nm sz = \<lparr>name = nm, browser_download_url = ''https://example.org/'' @ nm,
                    size_bytes = sz\<rparr>"

definition mk_release :: "ReleaseAsset list \<Rightarrow> Release" where
  "mk_release as = \<lparr>tag_name = ''v1.0'', release_name = ''1.0'',
                    html_url = ''https://example.org/v1.0'',
                    published_at = ''2025-01-01T00:00:00Z'', assets = as, body = []\<rparr>"

definition scenario_installers :: Release where
  "scenario_installers =
     mk_release [mk_asset ''App-1.0.dmg'' 1000000, mk_asset ''App-1.0.exe'' 2000000,
                 mk_asset ''App-1.0.dmg.sha256'' 64, mk_asset ''Latest-Mac.YML'' 300]"

definition scenario_slots :: Release where
  "scenario_slots =
     mk_release [mk_asset ''App-1.0.dmg'' 1000000, mk_asset ''App-1.0.exe'' 2000000,
                 mk_asset ''App-1.0.dmg.sha256'' 64]"

definition scenario_two_dmg :: Release where
  "scenario_two_dmg = mk_release [mk_asset ''App-arm64.dmg'' 10, mk_asset ''App-x64.dmg'' 20]"

definition scenario_readme :: Release where
  "scenario_readme = mk_release [mk_asset ''App-1.0.deb'' 10, mk_asset ''readme.txt'' 20, mk_asset ''App.deb.sig'' 3]"

definition scenario_darwin :: Release where
  "scenario_darwin = mk_release [mk_asset ''App-Darwin-x64.zip'' 10]"



declare floor_log1024.simps [simp del] decimal.simps [simp del]

section \<open>Facts about the string primitives\<close>

lemma endsWith_suffix: "endsWith s t \<longleftrightarrow> suffix t s"
  unfolding endsWith_def suffix_def
  by (metis add_diff_cancel_right' append_eq_conv_conj append_take_drop_id le_add2
      length_append length_drop)

lemma includes_str_sublist: "includes_str s t \<longleftrightarrow> sublist t s"
proof (induction s)
  case Nil
  then show ?case by simp
next
  case (Cons c cs)
  have "take (length t) (c # cs) = t \<longleftrightarrow> prefix t (c # cs)"
    unfolding prefix_def by (metis append_eq_conv_conj)
  with Cons show ?case
    by (simp add: sublist_Cons_right)
qed

section \<open>Facts about the classifier\<close>

lemma find_first_split:
  "find P xs = Some x \<longleftrightarrow> (\<exists>pre post. xs = pre @ x # post \<and> P x \<and> (\<forall>y\<in>set pre. \<not> P y))"
proof (induction xs)
  case Nil
  then show ?case by simp
next
  case (Cons z zs)
  show ?case
  proof (cases "P z")
    case True
    have "(\<exists>pre post. z # zs = pre @ x # post \<and> P x \<and> (\<forall>y\<in>set pre. \<not> P y)) \<longleftrightarrow> z = x"
    proof
      assume "\<exists>pre post. z # zs = pre @ x # post \<and> P x \<and> (\<forall>y\<in>set pre. \<not> P y)"
      then obtain pre post where *: "z # zs = pre @ x # post" "\<forall>y\<in>set pre. \<not> P y" by blast
      with True show "z = x" by (cases pre) auto
    next
      assume "z = x"
      with True have "z # zs = [] @ x # zs \<and> P x \<and> (\<forall>y\<in>set []. \<not> P y)" by simp
      then show "\<exists>pre post. z # zs = pre @ x # post \<and> P x \<and> (\<forall>y\<in>set pre. \<not> P y)" by blast
    qed
    with True show ?thesis by simp
  next
    case False
    have "(\<exists>pre post. z # zs = pre @ x # post \<and> P x \<and> (\<forall>y\<in>set pre. \<not> P y))
            \<longleftrightarrow> (\<exists>pre post. zs = pre @ x # post \<and> P x \<and> (\<forall>y\<in>set pre. \<not> P y))"
    proof
      assume "\<exists>pre post. z # zs = pre @ x # post \<and> P x \<and> (\<forall>y\<in>set pre. \<not> P y)"
      then obtain pre post where *: "z # zs = pre @ x # post" "P x" "\<forall>y\<in>set pre. \<not> P y" by blast
      with False obtain pre' where "pre = z # pre'" by (cases pre) auto
      with * have "zs = pre' @ x # post \<and> P x \<and> (\<forall>y\<in>set pre'. \<not> P y)" by simp
      then show "\<exists>pre post. zs = pre @ x # post \<and> P x \<and> (\<forall>y\<in>set pre. \<not> P y)" by blast
    next
      assume "\<exists>pre post. zs = pre @ x # post \<and> P x \<and> (\<forall>y\<in>set pre. \<not> P y)"
      then obtain pre post where "zs = pre @ x # post" "P x" "\<forall>y\<in>set pre. \<not> P y" by blast
      with False have "z # zs = (z # pre) @ x # post \<and> P x \<and> (\<forall>y\<in>set (z # pre). \<not> P y)" by simp
      then show "\<exists>pre post. z # zs = pre @ x # post \<and> P x \<and> (\<forall>y\<in>set pre. \<not> P y)" by blast
    qed
    with False Cons.IH show ?thesis by simp
  qed
qed

lemma platforms_length: "length platforms = 3"
  by (simp add: platforms_def)

lemma platformAssets_nth:
  "i < length platforms \<Longrightarrow>
     platformAssets rel ! i =
       \<lparr>platform = platforms ! i,
        asset = find (\<lambda>a. match (platforms ! i) (name a)) (installerAssets rel)\<rparr>"
  by (simp add: platformAssets_def)

lemma lower_fixtures:
  "toLowerCase ''App-1.0.dmg'' = ''app-1.0.dmg''"
  "toLowerCase ''App-1.0.exe'' = ''app-1.0.exe''"
  "toLowerCase ''App-1.0.dmg.sha256'' = ''app-1.0.dmg.sha256''"
  "toLowerCase ''Latest-Mac.YML'' = ''latest-mac.yml''"
  "toLowerCase ''App-arm64.dmg'' = ''app-arm64.dmg''"
  "toLowerCase ''App-x64.dmg'' = ''app-x64.dmg''"
  "toLowerCase ''App-1.0.deb'' = ''app-1.0.deb''"
  "toLowerCase ''readme.txt'' = ''readme.txt''"
  "toLowerCase ''App.deb.sig'' = ''app.deb.sig''"
  "toLowerCase ''App-Darwin-x64.zip'' = ''app-darwin-x64.zip''"
  by (simp_all add: toLowerCase_def toLowerChar_def)

lemmas classify_eval =
  platformAssets_def unmatchedAssets_def installerAssets_def isInstallerAsset_def
  platforms_def mk_release_def mk_asset_def lower_fixtures endsWith_def Let_def

lemma detectPlatform_find:
  "detectPlatform nm = map_option platform_name (find (\<lambda>p. match p nm) platforms)"
  by (simp add: detectPlatform_def platforms_def Let_def)

lemma win_in_darwin: "sublist ''win'' ''darwin''"
proof -
  have "''darwin'' = ''dar'' @ ''win'' @ []" by simp
  then show ?thesis unfolding sublist_def by blast
qed


section \<open>Facts about the formatter\<close>

lemma floor_log1024_small: "bytes < 1024 \<Longrightarrow> floor_log1024 bytes = 0"
  by (simp add: floor_log1024.simps)

lemma floor_log1024_large:
  "\<not> bytes < 1024 \<Longrightarrow> floor_log1024 bytes = Suc (floor_log1024 (bytes div 1024))"
  by (subst floor_log1024.simps) simp

lemma floor_log1024_bounds:
  "0 < bytes \<Longrightarrow> 1024 ^ floor_log1024 bytes \<le> bytes \<and> bytes < 1024 ^ Suc (floor_log1024 bytes)"
proof (induction bytes rule: floor_log1024.induct)
  case (1 bytes)
  show ?case
  proof (cases "bytes < 1024")
    case True
    with "1.prems" show ?thesis by (simp add: floor_log1024_small)
  next
    case False
    then have pos: "0 < bytes div 1024" by (simp add: div_greater_zero_iff)
    from "1.IH" [OF False pos]
    have lo: "1024 ^ floor_log1024 (bytes div 1024) \<le> bytes div 1024"
      and hi: "bytes div 1024 < 1024 ^ Suc (floor_log1024 (bytes div 1024))"
      by simp_all
    from lo have "1024 * 1024 ^ floor_log1024 (bytes div 1024) \<le> 1024 * (bytes div 1024)"
      by simp
    also have "\<dots> \<le> bytes" by simp
    finally have a: "1024 ^ Suc (floor_log1024 (bytes div 1024)) \<le> bytes" by simp
    from hi have "bytes < 1024 * 1024 ^ Suc (floor_log1024 (bytes div 1024))"
      by (metis div_less_iff_less_mult mult.commute zero_less_numeral)
    with a False show ?thesis by (simp add: floor_log1024_large)
  qed
qed

lemma floor_log1024_ln:
  assumes "0 < bytes"
  shows "int (floor_log1024 bytes) = \<lfloor>ln (real bytes) / ln 1024\<rfloor>"
proof -
  from floor_log1024_bounds [OF assms]
  have "\<lfloor>log (real (1024::nat)) (real bytes)\<rfloor> = int (floor_log1024 bytes)"
    by (intro floor_log_nat_eq_if) simp_all
  then show ?thesis by (simp add: log_def)
qed

lemma nearest_ratio:
  assumes "0 < b"
  shows "nat \<lfloor>rat_of_nat a / rat_of_nat b * 10 ^ f + 1 / 2\<rfloor> = (2 * a * 10 ^ f + b) div (2 * b)"
proof -
  have "rat_of_nat a / rat_of_nat b * 10 ^ f + 1 / 2
          = rat_of_nat (2 * a * 10 ^ f + b) / rat_of_nat (2 * b)"
    using assms by (simp add: field_simps)
  then show ?thesis
    by (simp only: floor_divide_of_nat_eq nat_int)
qed

lemma decimal_nonempty: "decimal n \<noteq> []"
  by (subst decimal.simps) simp

lemma toFixed_0: "toFixed x 0 = decimal (nat \<lfloor>x + 1 / 2\<rfloor>)"
  by (simp add: toFixed_def)

lemma toFixed_1:
  "toFixed x (Suc 0) =
     decimal (nat \<lfloor>x * 10 + 1 / 2\<rfloor> div 10) @ ''.'' @ [digit (nat \<lfloor>x * 10 + 1 / 2\<rfloor> mod 10)]"
proof -
  let ?n = "nat \<lfloor>x * 10 + 1 / 2\<rfloor>"
  show ?thesis
  proof (cases "?n < 10")
    case True
    then have "decimal ?n = [digit ?n]" "decimal (?n div 10) = [digit 0]"
      by (simp_all add: decimal.simps)
    with True show ?thesis
      by (simp add: toFixed_def Let_def digit_def)
  next
    case False
    then have d: "decimal ?n = decimal (?n div 10) @ [digit (?n mod 10)]"
      by (subst decimal.simps) simp
    have "Suc 0 \<le> length (decimal (?n div 10))"
      using decimal_nonempty [of "?n div 10"] by (cases "decimal (?n div 10)") simp_all
    then show ?thesis
      by (simp add: toFixed_def Let_def d)
  qed
qed

lemma formatBytes_pos:
  assumes "0 < bytes"
  shows "formatBytes bytes =
     (let i = floor_log1024 bytes;
          n = (20 * bytes + 1024 ^ i) div (2 * 1024 ^ i)
      in if i = 0 then decimal bytes @ '' B''
         else decimal (n div 10) @ ''.'' @ [digit (n mod 10)] @ '' '' @ unit_text i)"
proof (cases "floor_log1024 bytes = 0")
  case True
  have "nat \<lfloor>rat_of_nat bytes + 1 / 2\<rfloor> = bytes"
    using nearest_ratio [of 1 bytes 0] by simp
  with True assms show ?thesis
    by (simp add: formatBytes_def Let_def toFixed_0 unit_text_def units_def)
next
  case False
  let ?i = "floor_log1024 bytes"
  let ?n = "(20 * bytes + 1024 ^ ?i) div (2 * 1024 ^ ?i)"
  have n: "nat \<lfloor>rat_of_nat bytes / 1024 ^ ?i * 10 + 1 / 2\<rfloor> = ?n"
    using nearest_ratio [of "1024 ^ ?i" bytes 1] by simp
  have "formatBytes bytes = toFixed (rat_of_nat bytes / 1024 ^ ?i) (Suc 0) @ '' '' @ unit_text ?i"
    using assms False by (simp add: formatBytes_def Let_def)
  also have "toFixed (rat_of_nat bytes / 1024 ^ ?i) (Suc 0)
               = decimal (?n div 10) @ ''.'' @ [digit (?n mod 10)]"
    by (simp only: toFixed_1 n)
  finally show ?thesis
    using False by (simp add: Let_def)
qed

lemma floor_log1024_0: "floor_log1024 0 = 0"
  by (simp add: floor_log1024_small)

lemma floor_log1024_1: "floor_log1024 (Suc 0) = 0"
  by (simp add: floor_log1024_small)

lemma floor_log1024_numeral:
  "floor_log1024 (numeral k) =
     (if numeral k < (1024::nat) then 0 else Suc (floor_log1024 (numeral k div 1024)))"
  by (rule floor_log1024.simps)

lemma decimal_numeral:
  "decimal (numeral k) =
     (if numeral k < (10::nat) then [digit (numeral k)]
      else decimal (numeral k div 10) @ [digit (numeral k mod 10)])"
  by (rule decimal.simps)

lemma decimal_0: "decimal 0 = ''0''"
  by (simp add: decimal.simps digit_def)

lemma decimal_1: "decimal (Suc 0) = ''1''"
  by (simp add: decimal.simps digit_def)

lemmas formatBytes_eval =
  formatBytes_pos Let_def unit_text_def units_def digit_def floor_log1024_numeral
  decimal_numeral decimal_0 decimal_1 floor_log1024_0 floor_log1024_1

lemma scaled_at_least_1:
  assumes "0 < bytes"
  shows "1024 ^ j \<le> bytes \<longleftrightarrow> j \<le> floor_log1024 bytes"
proof
  assume "1024 ^ j \<le> bytes"
  also from floor_log1024_bounds [OF assms] have "bytes < 1024 ^ Suc (floor_log1024 bytes)"
    by simp
  finally have "j < Suc (floor_log1024 bytes)"
    by (rule power_less_imp_less_exp [rotated]) simp
  then show "j \<le> floor_log1024 bytes" by simp
next
  assume "j \<le> floor_log1024 bytes"
  then have "(1024::nat) ^ j \<le> 1024 ^ floor_log1024 bytes"
    by (simp add: power_increasing)
  also from floor_log1024_bounds [OF assms] have "\<dots> \<le> bytes" by simp
  finally show "1024 ^ j \<le> bytes" .
qed

lemma scaled_at_least_1_rat:
  assumes "0 < bytes"
  shows "1 \<le> rat_of_nat bytes / 1024 ^ j \<longleftrightarrow> j \<le> floor_log1024 bytes"
proof -
  have "1 \<le> rat_of_nat bytes / 1024 ^ j \<longleftrightarrow> rat_of_nat (1024 ^ j) \<le> rat_of_nat bytes"
    by (simp add: le_divide_eq)
  also have "\<dots> \<longleftrightarrow> 1024 ^ j \<le> bytes"
    by (simp only: of_nat_le_iff)
  finally show ?thesis
    by (simp only: scaled_at_least_1 [OF assms])
qed

lemma floor_log1024_in_table:
  assumes "0 < bytes"
  shows "floor_log1024 bytes < 4 \<longleftrightarrow> bytes < 1024 ^ 4"
proof -
  have "\<not> floor_log1024 bytes < 4 \<longleftrightarrow> 4 \<le> floor_log1024 bytes" by auto
  also have "\<dots> \<longleftrightarrow> 1024 ^ 4 \<le> bytes"
    by (simp only: scaled_at_least_1 [OF assms])
  finally show ?thesis by auto
qed

lemma units_length: "length units = 4"
  by (simp add: units_def)

lemma digit_in_digits: "d < 10 \<Longrightarrow> digit d \<in> set ''0123456789.''"
proof -
  assume "d < 10"
  then have "d < length ''0123456789.''" by simp
  then have "''0123456789.'' ! d \<in> set ''0123456789.''" by (rule nth_mem)
  moreover from \<open>d < 10\<close> have "''0123456789.'' ! d = ''0123456789'' ! d"
    using nth_append [of "''0123456789''" "''.''" d] by simp
  ultimately show ?thesis by (simp only: digit_def)
qed

lemma point_in_digits: "CHR ''.'' \<in> set ''0123456789.''"
  by simp

lemma decimal_digits: "set (decimal n) \<subseteq> set ''0123456789.''"
proof (induction n rule: decimal.induct)
  case (1 n)
  show ?case
  proof (cases "n < 10")
    case True
    then have "decimal n = [digit n]" by (simp add: decimal.simps)
    with digit_in_digits [OF True] show ?thesis
      by (simp only: list.set insert_subset empty_subsetI simp_thms)
  next
    case False
    then have "decimal n = decimal (n div 10) @ [digit (n mod 10)]"
      by (subst decimal.simps) simp
    moreover have "digit (n mod 10) \<in> set ''0123456789.''"
      by (rule digit_in_digits) simp
    ultimately show ?thesis using "1.IH" [OF False]
      by (simp only: set_append list.set Un_subset_iff insert_subset empty_subsetI simp_thms)
  qed
qed

lemma formatBytes_number:
  assumes "0 < bytes"
  shows "\<exists>num. formatBytes bytes = num @ '' '' @ unit_text (floor_log1024 bytes) \<and>
           num \<noteq> [] \<and> set num \<subseteq> set ''0123456789.''"
proof (cases "floor_log1024 bytes = 0")
  case True
  with assms have "formatBytes bytes = decimal bytes @ '' '' @ unit_text (floor_log1024 bytes)"
    by (simp add: formatBytes_pos unit_text_def units_def)
  with decimal_digits [of bytes] decimal_nonempty [of bytes] show ?thesis by blast
next
  case False
  let ?i = "floor_log1024 bytes"
  let ?n = "(20 * bytes + 1024 ^ ?i) div (2 * 1024 ^ ?i)"
  let ?num = "decimal (?n div 10) @ ''.'' @ [digit (?n mod 10)]"
  from assms False have "formatBytes bytes = ?num @ '' '' @ unit_text ?i"
    by (simp add: formatBytes_pos Let_def)
  moreover have "digit (?n mod 10) \<in> set ''0123456789.''"
    by (rule digit_in_digits) simp
  with decimal_digits [of "?n div 10"] point_in_digits
  have "set ?num \<subseteq> set ''0123456789.''"
    by (simp only: set_append list.set Un_subset_iff insert_subset empty_subsetI simp_thms)
  moreover have "?num \<noteq> []" by simp
  ultimately show ?thesis by blast
qed

section \<open>Facts about the fetch and the script\<close>

lemmas fetch_eval =
  fetch_effect_def on_response_def on_data_def on_catch_def initial_state_def render_def
  release_view_def ok_def error_message_def


section \<open>The installer filter drops the side files and nothing else\<close>

text \<open>
  C4. For every release, the installer filter keeps, unchanged and in their order, the
  assets whose lowercased file name ends with none of \<open>.sha256\<close>, \<open>.sig\<close>,
  \<open>.blockmap\<close>, \<open>.yaml\<close>, \<open>.yml\<close>, and removes every other asset. The script filters
  with the same function.
\<close>

theorem installerAssets_denylist:
  "installerAssets rel =
     filter (\<lambda>a. \<not> suffix ''.sha256'' (toLowerCase (name a)) \<and>
                  \<not> suffix ''.sig'' (toLowerCase (name a)) \<and>
                  \<not> suffix ''.blockmap'' (toLowerCase (name a)) \<and>
                  \<not> suffix ''.yaml'' (toLowerCase (name a)) \<and>
                  \<not> suffix ''.yml'' (toLowerCase (name a)))
            (assets rel)"
  by (simp add: installerAssets_def isInstallerAsset_def Let_def endsWith_suffix)

theorem installerAssets_denylist_witness:
  "installerAssets scenario_installers =
     [mk_asset ''App-1.0.dmg'' 1000000, mk_asset ''App-1.0.exe'' 2000000]"
  using installerAssets_denylist [of scenario_installers]
  by (simp add: scenario_installers_def mk_release_def mk_asset_def lower_fixtures
      endsWith_def endsWith_suffix [symmetric])

section \<open>Each slot holds the first match of its rule\<close>

text \<open>
  C2. For every release the slots come in the order of the three rules, and the slot of a
  rule is empty only when no filtered asset satisfies the matcher of the rule; otherwise
  it holds the first filtered asset, in the order of the release, that satisfies it.
\<close>

theorem platformAssets_first_match:
  "map platform (platformAssets rel) = platforms \<and>
   (\<forall>i < length platforms.
      case asset (platformAssets rel ! i) of
        None \<Rightarrow> \<forall>a \<in> set (installerAssets rel). \<not> match (platforms ! i) (name a)
      | Some a \<Rightarrow>
          \<exists>pre post. installerAssets rel = pre @ a # post \<and>
            match (platforms ! i) (name a) \<and>
            (\<forall>b \<in> set pre. \<not> match (platforms ! i) (name b)))"
proof (intro conjI allI impI)
  show "map platform (platformAssets rel) = platforms"
    by (simp add: platformAssets_def comp_def)
next
  fix i assume i: "i < length platforms"
  let ?P = "\<lambda>a. match (platforms ! i) (name a)"
  show "case asset (platformAssets rel ! i) of
          None \<Rightarrow> \<forall>a \<in> set (installerAssets rel). \<not> match (platforms ! i) (name a)
        | Some a \<Rightarrow>
            \<exists>pre post. installerAssets rel = pre @ a # post \<and>
              match (platforms ! i) (name a) \<and>
              (\<forall>b \<in> set pre. \<not> match (platforms ! i) (name b))"
  proof (cases "find ?P (installerAssets rel)")
    case None
    then have "\<forall>a \<in> set (installerAssets rel). \<not> ?P a"
      by (simp add: find_None_iff)
    with None i show ?thesis
      by (simp add: platformAssets_nth)
  next
    case (Some a)
    then show ?thesis
      using i find_first_split [of ?P "installerAssets rel" a]
      by (simp add: platformAssets_nth)
  qed
qed

theorem platformAssets_first_match_witness:
  "map asset (platformAssets scenario_slots) =
     [Some (mk_asset ''App-1.0.dmg'' 1000000), Some (mk_asset ''App-1.0.exe'' 2000000), None] \<and>
   (\<exists>pre post.
      installerAssets scenario_slots = pre @ mk_asset ''App-1.0.exe'' 2000000 # post \<and>
      match (platforms ! 1) (name (mk_asset ''App-1.0.exe'' 2000000)) \<and>
      (\<forall>b \<in> set pre. \<not> match (platforms ! 1) (name b)))"
proof -
  have e: "map asset (platformAssets scenario_slots) =
     [Some (mk_asset ''App-1.0.dmg'' 1000000), Some (mk_asset ''App-1.0.exe'' 2000000), None]"
    by (simp add: scenario_slots_def classify_eval)
  have l: "1 < length (platformAssets scenario_slots)"
    by (simp add: platformAssets_def platforms_length)
  have "asset (platformAssets scenario_slots ! 1) = map asset (platformAssets scenario_slots) ! 1"
    using l by (simp only: nth_map)
  with e have s: "asset (platformAssets scenario_slots ! 1) = Some (mk_asset ''App-1.0.exe'' 2000000)"
    by simp
  have "1 < length platforms"
    by (simp add: platforms_length)
  with platformAssets_first_match [of scenario_slots]
  have "case asset (platformAssets scenario_slots ! 1) of
          None \<Rightarrow> \<forall>a \<in> set (installerAssets scenario_slots). \<not> match (platforms ! 1) (name a)
        | Some a \<Rightarrow>
            \<exists>pre post. installerAssets scenario_slots = pre @ a # post \<and>
              match (platforms ! 1) (name a) \<and>
              (\<forall>b \<in> set pre. \<not> match (platforms ! 1) (name b))"
    by blast
  with s e show ?thesis
    by (simp only: option.case simp_thms)
qed

section \<open>The residual list\<close>

text \<open>
  C3, as stated, fails: of two disk images the second is chosen by no slot, and it is
  not among the unmatched assets either.
\<close>

theorem unmatchedAssets_residual_counterexample:
  "installerAssets scenario_two_dmg = [mk_asset ''App-arm64.dmg'' 10, mk_asset ''App-x64.dmg'' 20] \<and>
   map asset (platformAssets scenario_two_dmg) = [Some (mk_asset ''App-arm64.dmg'' 10), None, None] \<and>
   unmatchedAssets scenario_two_dmg = []"
  by (simp add: scenario_two_dmg_def classify_eval)

text \<open>
  C3, amended. For every release, \<open>unmatchedAssets\<close> consists, in the original order, of
  exactly the filtered assets whose file name no platform matcher accepts; none of them
  is the asset of a slot.
\<close>

theorem unmatchedAssets_no_rule:
  "unmatchedAssets rel =
     filter (\<lambda>a. \<forall>p \<in> set platforms. \<not> match p (name a)) (installerAssets rel) \<and>
   (\<forall>s \<in> set (platformAssets rel). \<forall>a \<in> set (unmatchedAssets rel). asset s \<noteq> Some a)"
proof
  show eq: "unmatchedAssets rel =
     filter (\<lambda>a. \<forall>p \<in> set platforms. \<not> match p (name a)) (installerAssets rel)"
    by (simp add: unmatchedAssets_def list_ex_iff)
  show "\<forall>s \<in> set (platformAssets rel). \<forall>a \<in> set (unmatchedAssets rel). asset s \<noteq> Some a"
  proof (intro ballI notI)
    fix s a
    assume s: "s \<in> set (platformAssets rel)" and a: "a \<in> set (unmatchedAssets rel)"
      and sa: "asset s = Some a"
    from s obtain p where p: "p \<in> set platforms"
      and "s = \<lparr>platform = p, asset = find (\<lambda>a. match p (name a)) (installerAssets rel)\<rparr>"
      by (auto simp: platformAssets_def)
    with sa have "find (\<lambda>a. match p (name a)) (installerAssets rel) = Some a" by simp
    then have "match p (name a)" by (auto simp: find_first_split)
    moreover from a p have "\<not> match p (name a)" by (simp add: eq)
    ultimately show False by contradiction
  qed
qed

theorem unmatchedAssets_no_rule_witness:
  "unmatchedAssets scenario_readme = [mk_asset ''readme.txt'' 20] \<and>
   map asset (platformAssets scenario_readme) = [None, None, Some (mk_asset ''App-1.0.deb'' 10)] \<and>
   asset (platformAssets scenario_readme ! 2) \<noteq> Some (mk_asset ''readme.txt'' 20)"
proof -
  have u: "unmatchedAssets scenario_readme = [mk_asset ''readme.txt'' 20]"
    and m: "map asset (platformAssets scenario_readme) = [None, None, Some (mk_asset ''App-1.0.deb'' 10)]"
    by (simp_all add: scenario_readme_def classify_eval)
  have "platformAssets scenario_readme ! 2 \<in> set (platformAssets scenario_readme)"
    by (rule nth_mem) (simp add: platformAssets_def platforms_length)
  moreover from u have "mk_asset ''readme.txt'' 20 \<in> set (unmatchedAssets scenario_readme)"
    by simp
  ultimately have "asset (platformAssets scenario_readme ! 2) \<noteq> Some (mk_asset ''readme.txt'' 20)"
    using unmatchedAssets_no_rule [of scenario_readme] by blast
  with u m show ?thesis by (intro conjI)
qed

text \<open>
  C5. For every release, every unmatched asset is an asset of the release that passed the
  installer filter, and no platform matcher accepts its file name.
\<close>

theorem unmatchedAssets_disjoint:
  "\<forall>a \<in> set (unmatchedAssets rel).
     a \<in> set (assets rel) \<and> isInstallerAsset (name a) \<and>
     (\<forall>p \<in> set platforms. \<not> match p (name a))"
  by (simp add: unmatchedAssets_def installerAssets_def list_ex_iff)

theorem unmatchedAssets_disjoint_witness:
  "mk_asset ''readme.txt'' 20 \<in> set (unmatchedAssets scenario_readme) \<and>
   isInstallerAsset ''readme.txt'' \<and>
   \<not> match (platforms ! 0) ''readme.txt'' \<and> \<not> match (platforms ! 1) ''readme.txt'' \<and>
   \<not> match (platforms ! 2) ''readme.txt''"
proof -
  have m: "mk_asset ''readme.txt'' 20 \<in> set (unmatchedAssets scenario_readme)"
    by (simp add: scenario_readme_def classify_eval)
  have n: "name (mk_asset ''readme.txt'' 20) = ''readme.txt''"
    by (simp add: mk_asset_def)
  have p: "platforms ! 0 \<in> set platforms" "platforms ! 1 \<in> set platforms"
    "platforms ! 2 \<in> set platforms"
    by (simp_all add: platforms_def)
  from unmatchedAssets_disjoint [of scenario_readme] m n p show ?thesis
    by auto
qed

section \<open>The script and the component\<close>

text \<open>
  C1, as stated, fails: the Windows matcher of the component accepts a name with
  \<open>darwin\<close> in it, and the script labels that name \<open>macOS\<close>.
\<close>

theorem detectPlatform_iff_counterexample:
  "detectPlatform ''App-Darwin-x64.zip'' = Some ''macOS'' \<and>
   platform_name (platforms ! 1) = ''Windows'' \<and>
   match (platforms ! 1) ''App-Darwin-x64.zip''"
  by (simp add: detectPlatform_def platforms_def lower_fixtures endsWith_def Let_def)

text \<open>
  C1, amended. For every file name, \<open>detectPlatform\<close> gives the name of the first rule of
  the component, in rule order, whose matcher accepts the file name, and \<open>null\<close> exactly
  when no matcher accepts it; so the matcher of the labelled platform accepts the name.
  In the component the asset of a slot is found by the rule of that slot alone.
\<close>

theorem detectPlatform_first_rule:
  "detectPlatform nm = map_option platform_name (find (\<lambda>p. match p nm) platforms) \<and>
   (detectPlatform nm = None \<longleftrightarrow> (\<forall>p \<in> set platforms. \<not> match p nm)) \<and>
   (\<forall>p \<in> set platforms. detectPlatform nm = Some (platform_name p) \<longrightarrow> match p nm) \<and>
   (\<forall>s \<in> set (platformAssets rel).
      asset s = find (\<lambda>a. match (platform s) (name a)) (installerAssets rel))"
proof (intro conjI)
  show "detectPlatform nm = map_option platform_name (find (\<lambda>p. match p nm) platforms)"
    by (rule detectPlatform_find)
  show "detectPlatform nm = None \<longleftrightarrow> (\<forall>p \<in> set platforms. \<not> match p nm)"
    by (auto simp: detectPlatform_find find_None_iff)
  show "\<forall>p \<in> set platforms. detectPlatform nm = Some (platform_name p) \<longrightarrow> match p nm"
    by (simp add: detectPlatform_def platforms_def Let_def)
  show "\<forall>s \<in> set (platformAssets rel).
      asset s = find (\<lambda>a. match (platform s) (name a)) (installerAssets rel)"
    by (auto simp: platformAssets_def)
qed

theorem detectPlatform_first_rule_witness:
  "detectPlatform ''App-1.0.exe'' = Some ''Windows'' \<and> match (platforms ! 1) ''App-1.0.exe''"
proof -
  have d: "detectPlatform ''App-1.0.exe'' = Some (platform_name (platforms ! 1))"
    by (simp add: detectPlatform_def platforms_def lower_fixtures endsWith_def Let_def)
  have p: "platforms ! 1 \<in> set platforms"
    by (simp add: platforms_def)
  have n: "platform_name (platforms ! 1) = ''Windows''"
    by (simp add: platforms_def)
  from detectPlatform_first_rule [of "''App-1.0.exe''" scenario_slots] d p
  have "match (platforms ! 1) ''App-1.0.exe''"
    by blast
  with d n show ?thesis by simp
qed

text \<open>
  C10. The first two rules are macOS and Windows; every file name whose lowercased form
  contains \<open>darwin\<close> satisfies the matchers of both; and there is a release with an asset
  that fills both slots of the component while the script labels it \<open>macOS\<close>.
\<close>

theorem darwin_matches_two_rules:
  "platform_name (platforms ! 0) = ''macOS'' \<and> platform_name (platforms ! 1) = ''Windows'' \<and>
   (\<forall>nm. includes_str (toLowerCase nm) ''darwin'' \<longrightarrow>
      match (platforms ! 0) nm \<and> match (platforms ! 1) nm) \<and>
   (\<exists>rel a. asset (platformAssets rel ! 0) = Some a \<and> asset (platformAssets rel ! 1) = Some a \<and>
      detectPlatform (name a) = Some ''macOS'')"
proof (intro conjI allI impI)
  show "platform_name (platforms ! 0) = ''macOS''" "platform_name (platforms ! 1) = ''Windows''"
    by (simp_all add: platforms_def)
next
  fix nm assume d: "includes_str (toLowerCase nm) ''darwin''"
  then show "match (platforms ! 0) nm"
    by (simp add: platforms_def Let_def)
  from d have "sublist ''darwin'' (toLowerCase nm)"
    by (simp only: includes_str_sublist)
  with win_in_darwin have "sublist ''win'' (toLowerCase nm)"
    by (rule sublist_order.order.trans)
  then have "includes_str (toLowerCase nm) ''win''"
    by (simp only: includes_str_sublist)
  then show "match (platforms ! 1) nm"
    by (simp add: platforms_def Let_def)
next
  let ?a = "mk_asset ''App-Darwin-x64.zip'' 10"
  have "asset (platformAssets scenario_darwin ! 0) = Some ?a \<and>
        asset (platformAssets scenario_darwin ! 1) = Some ?a \<and>
        detectPlatform (name ?a) = Some ''macOS''"
    by (simp add: scenario_darwin_def classify_eval detectPlatform_def)
  then show "\<exists>rel a. asset (platformAssets rel ! 0) = Some a \<and>
      asset (platformAssets rel ! 1) = Some a \<and> detectPlatform (name a) = Some ''macOS''"
    by blast
qed

theorem darwin_matches_two_rules_witness:
  "includes_str (toLowerCase ''App-Darwin-x64.zip'') ''darwin'' \<and>
   match (platforms ! 0) ''App-Darwin-x64.zip'' \<and> match (platforms ! 1) ''App-Darwin-x64.zip''"
proof -
  have d: "includes_str (toLowerCase ''App-Darwin-x64.zip'') ''darwin''"
    by (simp add: lower_fixtures)
  with darwin_matches_two_rules show ?thesis
    by blast
qed


section \<open>The outcomes of the fetch\<close>

text \<open>
  C6, as stated, fails: a response with status 200 whose body is \<^verbatim>\<open>null\<close> ends in the
  not-found state, and one whose body is \<^verbatim>\<open>{}\<close> in a release view that throws.
\<close>

theorem fetch_2xx_counterexample:
  "ok \<lparr>status = 200, json = Some Falsy\<rparr> \<and>
   render (fetch_effect (Resolved \<lparr>status = 200, json = Some Falsy\<rparr>)) = NotFound \<and>
   render (fetch_effect (Resolved \<lparr>status = 200, json = Some NoAssets\<rparr>)) = Throws"
  by (simp add: fetch_eval)

text \<open>
  C6, amended. The outcome of the fetch of the component is fixed by the HTTP result:
  status 404 gives the not-found state (no release, no error); a 2xx status whose body
  parses to a release object gives success with the parsed release; a 2xx status whose
  body parses to a falsy value gives the not-found state as well; every other status, a
  2xx body that does not parse, and a rejected fetch give the error state with the one
  generic message. A 2xx body that parses to any truthy value is stored as the release,
  with no error. The component is never left loading.
\<close>

theorem fetch_three_outcomes:
  "(status res = 404 \<longrightarrow>
      fetch_effect (Resolved res) = \<lparr>release = Falsy, loading = False, error = None\<rparr> \<and>
      render (fetch_effect (Resolved res)) = NotFound) \<and>
   (ok res \<and> json res = Some (ReleaseObject rel) \<longrightarrow>
      render (fetch_effect (Resolved res)) = Success rel) \<and>
   (ok res \<and> json res = Some Falsy \<longrightarrow>
      fetch_effect (Resolved res) = \<lparr>release = Falsy, loading = False, error = None\<rparr> \<and>
      render (fetch_effect (Resolved res)) = NotFound) \<and>
   (ok res \<and> json res = Some d \<and> d \<noteq> Falsy \<longrightarrow>
      fetch_effect (Resolved res) = \<lparr>release = d, loading = False, error = None\<rparr>) \<and>
   (status res \<noteq> 404 \<and> \<not> ok res \<longrightarrow>
      render (fetch_effect (Resolved res)) = Error error_message) \<and>
   (ok res \<and> json res = None \<longrightarrow>
      render (fetch_effect (Resolved res)) = Error error_message) \<and>
   render (fetch_effect Rejected) = Error error_message \<and>
   render (fetch_effect r) \<noteq> Loading"
proof (intro conjI impI)
  show "render (fetch_effect r) \<noteq> Loading"
    by (cases r) (simp_all add: fetch_eval Let_def split: option.splits json_value.splits)
qed (simp_all add: fetch_eval Let_def)

theorem fetch_three_outcomes_witness:
  "render (fetch_effect (Resolved \<lparr>status = 404, json = None\<rparr>)) = NotFound \<and>
   render (fetch_effect (Resolved \<lparr>status = 200, json = Some (ReleaseObject scenario_slots)\<rparr>))
     = Success scenario_slots \<and>
   render (fetch_effect (Resolved \<lparr>status = 204, json = Some Falsy\<rparr>)) = NotFound \<and>
   release (fetch_effect (Resolved \<lparr>status = 200, json = Some NoAssets\<rparr>)) = NoAssets \<and>
   render (fetch_effect (Resolved \<lparr>status = 500, json = None\<rparr>)) = Error error_message \<and>
   render (fetch_effect (Resolved \<lparr>status = 200, json = None\<rparr>)) = Error error_message"
  using fetch_three_outcomes [of "\<lparr>status = 404, json = None\<rparr>" scenario_slots NoAssets]
    fetch_three_outcomes [of "\<lparr>status = 200, json = Some (ReleaseObject scenario_slots)\<rparr>"
      scenario_slots NoAssets]
    fetch_three_outcomes [of "\<lparr>status = 204, json = Some Falsy\<rparr>" scenario_slots NoAssets]
    fetch_three_outcomes [of "\<lparr>status = 200, json = Some NoAssets\<rparr>" scenario_slots NoAssets]
    fetch_three_outcomes [of "\<lparr>status = 500, json = None\<rparr>" scenario_slots NoAssets]
    fetch_three_outcomes [of "\<lparr>status = 200, json = None\<rparr>" scenario_slots NoAssets]
  by (simp add: ok_def render_def release_view_def)

section \<open>The exit codes of the script\<close>




section \<open>The formatter below one tebibyte\<close>

text \<open>
  C8, as stated, fails: two tebibytes are a positive size, and the formatter prints a word
  that is not a unit of the table.
\<close>

theorem formatBytes_all_sizes_counterexample:
  "formatBytes 2199023255552 = ''2.0 undefined'' \<and> ''undefined'' \<notin> set units"
  by (simp add: formatBytes_eval)

text \<open>
  C8, amended. The formatter maps 0 to \<open>0 B\<close>. For every size from 1 up to, not including,
  \<open>1024^4\<close> it picks the largest unit of the table whose scaled value is at least 1 and
  prints the scaled value rounded to the nearest integer for \<open>B\<close> and to the nearest tenth,
  with one decimal place, for the other units. In particular it maps 1024, 500, 1536 and
  1073741824 to \<open>1.0 KB\<close>, \<open>500 B\<close>, \<open>1.5 KB\<close> and \<open>1.0 GB\<close>.
\<close>

theorem formatBytes_largest_unit:
  "formatBytes 0 = ''0 B'' \<and>
   (0 < bytes \<and> bytes < 1024 ^ 4 \<longrightarrow>
      (let i = floor_log1024 bytes;
           n = nat \<lfloor>rat_of_nat bytes / 1024 ^ i * 10 + 1 / 2\<rfloor>
       in i < length units \<and>
          (\<forall>j < length units. 1 \<le> rat_of_nat bytes / 1024 ^ j \<longleftrightarrow> j \<le> i) \<and>
          formatBytes bytes =
            (if i = 0 then decimal bytes
             else decimal (n div 10) @ ''.'' @ [digit (n mod 10)]) @ '' '' @ units ! i)) \<and>
   formatBytes 1024 = ''1.0 KB'' \<and> formatBytes 500 = ''500 B'' \<and>
   formatBytes 1536 = ''1.5 KB'' \<and> formatBytes 1073741824 = ''1.0 GB''"
proof (intro conjI impI)
  show "formatBytes 0 = ''0 B''"
    by (simp add: formatBytes_def)
  show "formatBytes 1024 = ''1.0 KB''" "formatBytes 500 = ''500 B''"
    "formatBytes 1536 = ''1.5 KB''" "formatBytes 1073741824 = ''1.0 GB''"
    by (simp_all add: formatBytes_eval)
next
  assume a: "0 < bytes \<and> bytes < 1024 ^ 4"
  then have pos: "0 < bytes" by simp
  let ?i = "floor_log1024 bytes"
  let ?n = "nat \<lfloor>rat_of_nat bytes / 1024 ^ ?i * 10 + 1 / 2\<rfloor>"
  from a floor_log1024_in_table [OF pos] have i: "?i < length units"
    unfolding units_length by blast
  then have u: "unit_text ?i = units ! ?i"
    by (simp add: unit_text_def)
  have n: "?n = (20 * bytes + 1024 ^ ?i) div (2 * 1024 ^ ?i)"
    using nearest_ratio [of "1024 ^ ?i" bytes 1] by simp
  have f: "formatBytes bytes =
      (if ?i = 0 then decimal bytes
       else decimal (?n div 10) @ ''.'' @ [digit (?n mod 10)]) @ '' '' @ units ! ?i"
    unfolding n using pos u by (simp add: formatBytes_pos Let_def units_def)
  have s: "\<forall>j < length units. 1 \<le> rat_of_nat bytes / 1024 ^ j \<longleftrightarrow> j \<le> ?i"
    by (simp only: scaled_at_least_1_rat [OF pos]) simp
  from i s f show "let i = floor_log1024 bytes;
           n = nat \<lfloor>rat_of_nat bytes / 1024 ^ i * 10 + 1 / 2\<rfloor>
       in i < length units \<and>
          (\<forall>j < length units. 1 \<le> rat_of_nat bytes / 1024 ^ j \<longleftrightarrow> j \<le> i) \<and>
          formatBytes bytes =
            (if i = 0 then decimal bytes
             else decimal (n div 10) @ ''.'' @ [digit (n mod 10)]) @ '' '' @ units ! i"
    unfolding Let_def by (intro conjI)
qed


theorem formatBytes_largest_unit_witness:
  "floor_log1024 1000000 = 1 \<and> formatBytes 1000000 = ''976.6 KB''"
proof -
  have i: "floor_log1024 1000000 = 1"
    by (simp add: floor_log1024_numeral)
  have n: "nat \<lfloor>rat_of_nat 1000000 / 1024 ^ 1 * 10 + 1 / 2\<rfloor> = 9766"
    using nearest_ratio [of 1024 1000000 1] by simp
  have "(0::nat) < 1000000 \<and> (1000000::nat) < 1024 ^ 4"
    by simp
  with formatBytes_largest_unit [of 1000000]
  have "let i = floor_log1024 1000000;
            n = nat \<lfloor>rat_of_nat 1000000 / 1024 ^ i * 10 + 1 / 2\<rfloor>
        in i < length units \<and>
           (\<forall>j < length units. 1 \<le> rat_of_nat 1000000 / 1024 ^ j \<longleftrightarrow> j \<le> i) \<and>
           formatBytes 1000000 =
             (if i = 0 then decimal 1000000
              else decimal (n div 10) @ ''.'' @ [digit (n mod 10)]) @ '' '' @ units ! i"
    by blast
  then have "formatBytes 1000000 =
      decimal (9766 div 10) @ ''.'' @ [digit (9766 mod 10)] @ '' '' @ units ! 1"
    unfolding Let_def i n by simp
  then have "formatBytes 1000000 = ''976.6 KB''"
    by (simp add: decimal_numeral digit_def units_def)
  with i show ?thesis by simp
qed

text \<open>
  C9. For every size from 1 on, the unit index is \<open>\<lfloor>ln bytes / ln 1024\<rfloor>\<close>. Below \<open>1024^4\<close>
  it lies inside the table of four units and the result is a number (digits and at most
  a point before the last digit), a space and the unit at that index. From \<open>1024^4\<close> on
  the index lies outside the table, nothing guards the read, and the result ends with the
  word \<open>undefined\<close>.
\<close>

theorem unit_index_in_table:
  "(1 \<le> bytes \<longrightarrow> int (floor_log1024 bytes) = \<lfloor>ln (real bytes) / ln 1024\<rfloor>) \<and>
   (1 \<le> bytes \<and> bytes < 1024 ^ 4 \<longrightarrow>
      floor_log1024 bytes < length units \<and>
      (\<exists>num. formatBytes bytes = num @ '' '' @ units ! floor_log1024 bytes \<and>
             num \<noteq> [] \<and> set num \<subseteq> set ''0123456789.'')) \<and>
   (1024 ^ 4 \<le> bytes \<longrightarrow>
      length units \<le> floor_log1024 bytes \<and>
      (\<exists>num. formatBytes bytes = num @ '' undefined'' \<and>
             num \<noteq> [] \<and> set num \<subseteq> set ''0123456789.''))"
proof (intro conjI impI)
  assume "1 \<le> bytes"
  then show "int (floor_log1024 bytes) = \<lfloor>ln (real bytes) / ln 1024\<rfloor>"
    by (simp add: floor_log1024_ln)
next
  assume a: "1 \<le> bytes \<and> bytes < 1024 ^ 4"
  then have pos: "0 < bytes" by simp
  from a floor_log1024_in_table [OF pos] show i: "floor_log1024 bytes < length units"
    unfolding units_length by blast
  then have "unit_text (floor_log1024 bytes) = units ! floor_log1024 bytes"
    by (simp add: unit_text_def)
  with formatBytes_number [OF pos]
  show "\<exists>num. formatBytes bytes = num @ '' '' @ units ! floor_log1024 bytes \<and>
             num \<noteq> [] \<and> set num \<subseteq> set ''0123456789.''"
    by simp
next
  assume a: "1024 ^ 4 \<le> bytes"
  then have pos: "0 < bytes" by (cases "bytes = 0") simp_all
  from a floor_log1024_in_table [OF pos] show i: "length units \<le> floor_log1024 bytes"
    unfolding units_length by (simp only: not_less [symmetric]) blast
  then have "unit_text (floor_log1024 bytes) = ''undefined''"
    by (simp add: unit_text_def)
  with formatBytes_number [OF pos]
  show "\<exists>num. formatBytes bytes = num @ '' undefined'' \<and>
             num \<noteq> [] \<and> set num \<subseteq> set ''0123456789.''"
    by simp
qed

theorem unit_index_in_table_witness:
  "floor_log1024 2000000 < length units \<and> formatBytes 2000000 = ''1.9 MB'' \<and>
   length units \<le> floor_log1024 1099511627776 \<and>
   formatBytes 1099511627776 = ''1.0 undefined''"
proof -
  have f: "formatBytes 2000000 = ''1.9 MB''" "formatBytes 1099511627776 = ''1.0 undefined''"
    by (simp_all add: formatBytes_eval)
  have "(1::nat) \<le> 2000000 \<and> (2000000::nat) < 1024 ^ 4"
    by simp
  with unit_index_in_table [of 2000000] have a: "floor_log1024 2000000 < length units"
    by blast
  have "(1024::nat) ^ 4 \<le> 1099511627776"
    by simp
  with unit_index_in_table [of 1099511627776]
  have b: "length units \<le> floor_log1024 1099511627776"
    by blast
  from a b f show ?thesis by (intro conjI)
qed

end
